theory Spec2Isabelle
  imports
    Complex_Main
    "HOL-Library.Char_ord"
    "HOL-Library.List_Lexorder"
    "HOL-Library.Product_Lexorder"
    "HOL-Library.Multiset"
begin

section \<open>Data frames as read from the CSV files\<close>

text \<open>
  The script keeps every table in a pandas \<open>DataFrame\<close>. The two frames that
  \<open>load_data_from_csv\<close> produces are modelled with their column names, because
  \<open>remove_duplicate_data\<close> addresses columns by name and a name that is not a column
  raises \<open>KeyError\<close>. A cell read from a CSV file is an integer, a string, or missing
  (\<open>NaN\<close>). The index labels of a frame are the positions of its rows.
\<close>

datatype cell = NA | IntC int | StrC string

definition cell_enc :: "cell \<Rightarrow> nat \<times> int \<times> string" where
  "cell_enc c = (case c of NA \<Rightarrow> (0, 0, []) | IntC i \<Rightarrow> (1, i, []) | StrC s \<Rightarrow> (2, 0, s))"

instantiation cell :: linorder
begin

definition less_eq_cell :: "cell \<Rightarrow> cell \<Rightarrow> bool" where
  "less_eq_cell c d \<longleftrightarrow> cell_enc c \<le> cell_enc d"

definition less_cell :: "cell \<Rightarrow> cell \<Rightarrow> bool" where
  "less_cell c d \<longleftrightarrow> cell_enc c < cell_enc d"

instance
proof
  fix x y z :: cell
  show "x < y \<longleftrightarrow> x \<le> y \<and> \<not> y \<le> x"
    unfolding less_eq_cell_def less_cell_def by (rule less_le_not_le)
  show "x \<le> x"
    unfolding less_eq_cell_def by simp
  show "x \<le> y \<Longrightarrow> y \<le> z \<Longrightarrow> x \<le> z"
    unfolding less_eq_cell_def by (rule order_trans)
  show "x \<le> y \<Longrightarrow> y \<le> x \<Longrightarrow> x = y"
    unfolding less_eq_cell_def by (cases x; cases y) (auto simp: cell_enc_def)
  show "x \<le> y \<or> y \<le> x"
    unfolding less_eq_cell_def by (rule linear)
qed

end

datatype error = KeyError string | ValueError

record frame =
  columns :: "string list"
  rows :: "cell list list"

fun col_index :: "string list \<Rightarrow> string \<Rightarrow> nat option" where
  "col_index [] name = None"
| "col_index (c # cs) name =
     (if c = name then Some 0 else map_option Suc (col_index cs name))"

definition getitem :: "string list \<Rightarrow> string \<Rightarrow> cell list \<Rightarrow> cell" where
  "getitem cols name row =
     (case col_index cols name of
        Some i \<Rightarrow> (if i < length row then row ! i else NA)
      | None \<Rightarrow> NA)"

definition group_key :: "string list \<Rightarrow> string list \<Rightarrow> cell list \<Rightarrow> cell list" where
  "group_key cols keys row = map (\<lambda>k. getitem cols k row) keys"

text \<open>
  \<open>groupby\<close> with its defaults: a row with a missing value in a key column belongs to no
  group (\<open>dropna=True\<close>), and the groups come in the sorted order of their keys
  (\<open>sort=True\<close>).
\<close>

definition group_labels :: "('r \<Rightarrow> cell list) \<Rightarrow> 'r list \<Rightarrow> cell list list" where
  "group_labels key rs = sort (remdups (filter (\<lambda>k. NA \<notin> set k) (map key rs)))"

text \<open>
  \<open>idxmin\<close> and \<open>idxmax\<close>: the index label of the first occurrence of the least (greatest)
  value, missing values skipped. \<open>arg_first better ps\<close> keeps the earlier of two entries
  unless the later one is strictly better.
\<close>

fun scan_best :: "(cell \<Rightarrow> cell \<Rightarrow> bool) \<Rightarrow> nat \<times> cell \<Rightarrow> (nat \<times> cell) list \<Rightarrow> nat \<times> cell" where
  "scan_best better b [] = b"
| "scan_best better b (p # ps) =
     scan_best better (if better (snd p) (snd b) then p else b) ps"

fun arg_first :: "(cell \<Rightarrow> cell \<Rightarrow> bool) \<Rightarrow> (nat \<times> cell) list \<Rightarrow> nat option" where
  "arg_first better [] = None"
| "arg_first better (p # ps) = Some (fst (scan_best better p ps))"

definition skipna :: "(nat \<times> cell) list \<Rightarrow> (nat \<times> cell) list" where
  "skipna ps = filter (\<lambda>p. snd p \<noteq> NA) ps"

definition idxmin :: "(nat \<times> cell) list \<Rightarrow> nat option" where
  "idxmin ps = arg_first (\<lambda>w v. w < v) (skipna ps)"

definition idxmax :: "(nat \<times> cell) list \<Rightarrow> nat option" where
  "idxmax ps = arg_first (\<lambda>w v. v < w) (skipna ps)"

text \<open>
  The column \<open>ordering_key\<close> of one group, each value with the index label of its row.
\<close>

definition group_column ::
  "string list \<Rightarrow> string list \<Rightarrow> string \<Rightarrow> cell list list \<Rightarrow> cell list \<Rightarrow> (nat \<times> cell) list" where
  "group_column cols keys ordering_key rs g =
     map (\<lambda>p. (fst p, getitem cols ordering_key (snd p)))
       (filter (\<lambda>p. group_key cols keys (snd p) = g) (enumerate 0 rs))"

text \<open>
  \<open>remove_duplicate_data\<close>. \<open>groupby\<close> raises \<open>ValueError\<close> for an empty list of keys when the
  frame has rows, and \<open>KeyError\<close> for a key that is not a column; selecting \<open>ordering_key\<close>
  raises \<open>KeyError\<close> when it is not a column. A group whose ordering values are all missing
  has no index label, and the lookup of the labels fails. Otherwise \<open>loc\<close> reads one row per
  group, in the order of the groups, and \<open>reset_index\<close> renumbers them.
\<close>

definition remove_duplicate_data :: "string list \<Rightarrow> string \<Rightarrow> bool \<Rightarrow> frame \<Rightarrow> error + frame" where
  "remove_duplicate_data partitioning_keys ordering_key ascending_order df =
     (if partitioning_keys = [] \<and> rows df \<noteq> [] then Inl ValueError
      else case filter (\<lambda>k. k \<notin> set (columns df)) partitioning_keys of
        k # _ \<Rightarrow> Inl (KeyError k)
      | [] \<Rightarrow>
          if ordering_key \<notin> set (columns df) then Inl (KeyError ordering_key)
          else
            let idx = map (\<lambda>g. (if ascending_order then idxmin else idxmax)
                               (group_column (columns df) partitioning_keys ordering_key (rows df) g))
                          (group_labels (group_key (columns df) partitioning_keys) (rows df))
            in case those idx of
                 None \<Rightarrow> Inl (KeyError ''nan'')
               | Some labels \<Rightarrow> Inr (df\<lparr>rows := map (\<lambda>i. rows df ! i) labels\<rparr>))"

text \<open>
  The employee stage of the script: the frame read from the employee file, cleaned with
  the keys and the ordering that the script passes.
\<close>

definition employee_data :: "frame \<Rightarrow> error + frame" where
  "employee_data csv =
     remove_duplicate_data [''employe_id'', ''branch_id''] ''salary'' False csv"

section \<open>Timesheet entries joined with their employee\<close>

text \<open>
  After the timesheet frame is merged with the employee frame, every row carries the
  columns that \<open>select_fields\<close> keeps. The rows are modelled with the values that
  \<open>pd.to_datetime\<close> and \<open>pd.to_timedelta\<close> read from the text of the file: a calendar date,
  and a time of day as a number of nanoseconds. Reading the text is not part of the model.
  A missing value (\<open>NaN\<close>, \<open>NaT\<close>) is \<open>None\<close>; the columns that the script treats as possibly
  missing are \<open>resign_date\<close>, \<open>checkin\<close> and \<open>checkout\<close>. Integers are unbounded, and
  \<open>float64\<close> values are exact rationals: rounding errors of the machine arithmetic and
  overflow are not modelled.
\<close>

datatype date = Date (dt_year: int) (dt_month: int) (dt_day: int)

definition date_le :: "date \<Rightarrow> date \<Rightarrow> bool" where
  "date_le a b \<longleftrightarrow> (dt_year a, dt_month a, dt_day a) \<le> (dt_year b, dt_month b, dt_day b)"

record entry =
  timesheet_id :: int
  employee_id :: int
  branch_id :: int
  salary :: int
  join_date :: date
  resign_date :: "date option"
  date :: date
  checkin :: "int option"
  checkout :: "int option"

text \<open>Comparisons with a missing value are false, as in pandas.\<close>

definition datetime_le :: "date option \<Rightarrow> date option \<Rightarrow> bool" where
  "datetime_le a b = (case (a, b) of (Some x, Some y) \<Rightarrow> date_le x y | _ \<Rightarrow> False)"

definition timedelta_gt :: "int option \<Rightarrow> int option \<Rightarrow> bool" where
  "timedelta_gt a b = (case (a, b) of (Some x, Some y) \<Rightarrow> x > y | _ \<Rightarrow> False)"

definition timedelta_sub :: "int option \<Rightarrow> int option \<Rightarrow> int option" where
  "timedelta_sub a b = (case (a, b) of (Some x, Some y) \<Rightarrow> Some (x - y) | _ \<Rightarrow> None)"

definition isna :: "'a option \<Rightarrow> bool" where
  "isna a \<longleftrightarrow> a = None"

definition total_seconds :: "int \<Rightarrow> rat" where
  "total_seconds ns = of_int ns / 1000000000"

definition fillna :: "rat \<Rightarrow> rat option \<Rightarrow> rat" where
  "fillna d v = (case v of None \<Rightarrow> d | Some x \<Rightarrow> x)"

definition np_where :: "bool \<Rightarrow> 'a \<Rightarrow> 'a \<Rightarrow> 'a" where
  "np_where c x y = (if c then x else y)"

subsection \<open>Validity filter\<close>

definition filter_valid_data :: "entry list \<Rightarrow> entry list" where
  "filter_valid_data data =
     filter (\<lambda>r. datetime_le (Some (date r)) (resign_date r) \<or> isna (resign_date r)) data"

subsection \<open>Work hours\<close>

record work_entry = entry +
  work_hour :: rat

definition calculate_work_hour :: "entry list \<Rightarrow> work_entry list" where
  "calculate_work_hour data =
     map (\<lambda>r. entry.extend r (work_entry.fields
           (fillna 0
             (np_where (timedelta_gt (checkin r) (checkout r)) (Some 0)
               (map_option (\<lambda>d. total_seconds d / 3600) (timedelta_sub (checkout r) (checkin r)))))))
       data"

subsection \<open>Aggregation\<close>

text \<open>
  \<open>groupby\<close> on key columns without missing values: the groups in the sorted order of their
  keys, each with its rows in the order of the frame.
\<close>

definition groupby :: "('r \<Rightarrow> 'k::linorder) \<Rightarrow> 'r list \<Rightarrow> ('k \<times> 'r list) list" where
  "groupby key data = map (\<lambda>k. (k, filter (\<lambda>r. key r = k) data)) (sort (remdups (map key data)))"

record branch_month =
  year :: int
  month :: int
  branch_id :: int

definition year_month_branch :: "'a branch_month_scheme \<Rightarrow> int \<times> int \<times> int" where
  "year_month_branch r = (year r, month r, branch_id r)"

record hours_row = branch_month +
  total_work_hour :: rat

record salary_month_row = branch_month +
  employee_id :: int
  salary_per_month :: int

record salary_row = branch_month +
  total_salary :: int

text \<open>
  The columns \<open>year\<close> and \<open>month\<close> that the aggregations add are read from \<open>date\<close>.
\<close>

definition entry_year_month_branch :: "'a entry_scheme \<Rightarrow> int \<times> int \<times> int" where
  "entry_year_month_branch r = (dt_year (date r), dt_month (date r), entry.branch_id r)"

definition entry_year_month_branch_employee :: "'a entry_scheme \<Rightarrow> int \<times> int \<times> int \<times> int" where
  "entry_year_month_branch_employee r =
     (dt_year (date r), dt_month (date r), entry.branch_id r, entry.employee_id r)"

definition sum_work_hour :: "work_entry list \<Rightarrow> hours_row list" where
  "sum_work_hour data =
     map (\<lambda>(k, g). case k of (y, m, b) \<Rightarrow>
            \<lparr>year = y, month = m, branch_id = b, total_work_hour = sum_list (map work_hour g)\<rparr>)
       (groupby entry_year_month_branch data)"

definition get_salary_per_employee :: "entry list \<Rightarrow> salary_month_row list" where
  "get_salary_per_employee data =
     map (\<lambda>(k, g). case k of (y, m, b, e) \<Rightarrow>
            \<lparr>year = y, month = m, branch_id = b, employee_id = e,
             salary_per_month = Max (set (map salary g))\<rparr>)
       (groupby entry_year_month_branch_employee data)"

definition sum_salary_per_branch :: "salary_month_row list \<Rightarrow> salary_row list" where
  "sum_salary_per_branch data =
     map (\<lambda>(k, g). case k of (y, m, b) \<Rightarrow>
            \<lparr>year = y, month = m, branch_id = b, total_salary = sum_list (map salary_per_month g)\<rparr>)
       (groupby year_month_branch data)"

subsection \<open>Rate\<close>

text \<open>
  \<open>pd.merge\<close> of the two aggregates on \<open>year\<close>, \<open>month\<close> and \<open>branch_id\<close>: an inner join, in
  the order of the left frame.
\<close>

record joined_row = hours_row +
  total_salary :: int

definition merge :: "hours_row list \<Rightarrow> salary_row list \<Rightarrow> joined_row list" where
  "merge left right =
     concat (map (\<lambda>l. map (\<lambda>r. \<lparr>year = year l, month = month l, branch_id = branch_id l,
                                 total_work_hour = total_work_hour l,
                                 total_salary = salary_row.total_salary r\<rparr>)
                       (filter (\<lambda>r. year_month_branch r = year_month_branch l) right))
                left)"

text \<open>
  The quotient of two \<open>float64\<close> values in numpy is defined for a zero divisor as well: it is
  an infinity, or not a number. \<open>np.round\<close> rounds half to even and leaves these values alone.
\<close>

datatype float64 = Finite rat | PosInf | NegInf | NaN

definition isfinite :: "float64 \<Rightarrow> bool" where
  "isfinite v = (case v of Finite x \<Rightarrow> True | _ \<Rightarrow> False)"

definition true_divide :: "rat \<Rightarrow> rat \<Rightarrow> float64" where
  "true_divide a b =
     (if b = 0 then (if a = 0 then NaN else if a > 0 then PosInf else NegInf)
      else Finite (a / b))"

definition round_half_even :: "rat \<Rightarrow> int" where
  "round_half_even x =
     (let f = \<lfloor>x\<rfloor>; d = x - of_int f
      in if d < 1 / 2 then f else if d > 1 / 2 then f + 1 else if even f then f else f + 1)"

definition np_round :: "float64 \<Rightarrow> nat \<Rightarrow> float64" where
  "np_round v decimals =
     (case v of Finite x \<Rightarrow> Finite (of_int (round_half_even (x * 10 ^ decimals)) / 10 ^ decimals)
      | _ \<Rightarrow> v)"

record rated_row = joined_row +
  salary_per_hour :: float64

definition calculate_salary_per_hour :: "joined_row list \<Rightarrow> rated_row list" where
  "calculate_salary_per_hour data =
     map (\<lambda>r. joined_row.extend r (rated_row.fields
           (np_where (total_work_hour r = 0) (Finite 0)
              (np_round (true_divide (of_int (joined_row.total_salary r)) (total_work_hour r)) 2))))
       data"

record result_row = branch_month +
  salary_per_hour :: float64

definition select_fields :: "rated_row list \<Rightarrow> result_row list" where
  "select_fields data =
     map (\<lambda>r. \<lparr>year = year r, month = month r, branch_id = branch_id r,
                salary_per_hour = rated_row.salary_per_hour r\<rparr>) data"

subsection \<open>The script, from the joined entries on\<close>

definition employee_timesheet_data :: "entry list \<Rightarrow> entry list" where
  "employee_timesheet_data joined_employee_timesheet_data =
     filter_valid_data joined_employee_timesheet_data"

definition work_hour_data :: "entry list \<Rightarrow> hours_row list" where
  "work_hour_data data = sum_work_hour (calculate_work_hour data)"

definition salary_data :: "entry list \<Rightarrow> salary_row list" where
  "salary_data data = sum_salary_per_branch (get_salary_per_employee data)"

definition joined_work_hour_salary_data :: "entry list \<Rightarrow> joined_row list" where
  "joined_work_hour_salary_data data = merge (work_hour_data data) (salary_data data)"

definition salary_per_hour_data :: "entry list \<Rightarrow> result_row list" where
  "salary_per_hour_data data =
     select_fields (calculate_salary_per_hour (joined_work_hour_salary_data data))"

subsection \<open>Example data\<close>

text \<open>The time of day \<open>h:m:00\<close> as \<open>pd.to_timedelta\<close> reads it, in nanoseconds.\<close>

definition clock :: "int \<Rightarrow> int \<Rightarrow> int" where
  "clock h m = (h * 3600 + m * 60) * 1000000000"

definition example_entry :: entry where
  "example_entry =
     \<lparr>timesheet_id = 10, employee_id = 1, branch_id = 1, salary = 3000,
      join_date = Date 2024 1 1, resign_date = None, date = Date 2024 6 1,
      checkin = Some (clock 9 0), checkout = Some (clock 17 0)\<rparr>"

text \<open>
  An employee file with three rows for employee 1 of branch 1, two of them with the
  highest salary.
\<close>

definition employees_example :: frame where
  "employees_example =
     \<lparr>columns = [''employe_id'', ''branch_id'', ''salary'', ''join_date'', ''resign_date''],
      rows = [[IntC 2, IntC 1, IntC 7500, StrC ''2017-04-28'', NA],
              [IntC 1, IntC 1, IntC 3000, StrC ''2016-01-15'', NA],
              [IntC 1, IntC 1, IntC 3500, StrC ''2017-01-15'', NA],
              [IntC 1, IntC 1, IntC 3500, StrC ''2018-01-15'', StrC ''2020-01-31'']]\<rparr>"

section \<open>Properties of the deduplication\<close>

lemma cell_less_simps [simp]:
  "IntC a < IntC b \<longleftrightarrow> a < b" "IntC a \<le> IntC b \<longleftrightarrow> a \<le> b"
  "StrC s < StrC t \<longleftrightarrow> s < t" "StrC s \<le> StrC t \<longleftrightarrow> s \<le> t"
  by (auto simp: less_cell_def less_eq_cell_def cell_enc_def)

lemma scan_best_inv:
  assumes irrefl: "\<And>x. \<not> better x x"
    and negtrans: "\<And>x y z. \<not> better x y \<Longrightarrow> better z y \<Longrightarrow> \<not> better x z"
  shows "b \<in> S \<Longrightarrow> \<forall>q\<in>S. \<not> better (snd q) (snd b) \<Longrightarrow>
         scan_best better b ps \<in> S \<union> set ps \<and>
         (\<forall>q\<in>S \<union> set ps. \<not> better (snd q) (snd (scan_best better b ps)))"
proof (induction ps arbitrary: b S)
  case Nil
  then show ?case by simp
next
  case (Cons p ps)
  let ?b = "if better (snd p) (snd b) then p else b"
  have in_S: "?b \<in> insert p S" using Cons.prems(1) by simp
  have best: "\<forall>q\<in>insert p S. \<not> better (snd q) (snd ?b)"
  proof (cases "better (snd p) (snd b)")
    case True
    have "\<not> better (snd q) (snd p)" if "q \<in> S" for q
      using negtrans [of "snd q" "snd b" "snd p"] Cons.prems(2) that True by blast
    with True irrefl show ?thesis by simp
  next
    case False
    with Cons.prems(2) show ?thesis by simp
  qed
  from Cons.IH [OF in_S best] show ?case by simp
qed

lemma scan_best_first:
  assumes irrefl: "\<And>x. \<not> better x x"
  shows "b \<in> S \<Longrightarrow> \<forall>q\<in>S. \<not> better (snd q) (snd b) \<Longrightarrow>
         \<forall>q\<in>S. snd q = snd b \<longrightarrow> fst b \<le> fst q \<Longrightarrow>
         \<forall>q\<in>S. \<forall>p\<in>set ps. fst q < fst p \<Longrightarrow>
         sorted_wrt (<) (map fst ps) \<Longrightarrow>
         (\<forall>x y z. \<not> better x y \<longrightarrow> better z y \<longrightarrow> \<not> better x z) \<Longrightarrow>
         \<forall>q\<in>S \<union> set ps. snd q = snd (scan_best better b ps) \<longrightarrow> fst (scan_best better b ps) \<le> fst q"
proof (induction ps arbitrary: b S)
  case Nil
  then show ?case by simp
next
  case (Cons p ps)
  let ?b = "if better (snd p) (snd b) then p else b"
  have 1: "?b \<in> insert p S" using Cons.prems(1) by simp
  have 2: "\<forall>q\<in>insert p S. \<not> better (snd q) (snd ?b)"
  proof (cases "better (snd p) (snd b)")
    case True
    have "\<not> better (snd q) (snd p)" if "q \<in> S" for q
      using Cons.prems(6) Cons.prems(2) that True by blast
    with True irrefl show ?thesis by simp
  next
    case False
    with Cons.prems(2) show ?thesis by simp
  qed
  have 3: "\<forall>q\<in>insert p S. snd q = snd ?b \<longrightarrow> fst ?b \<le> fst q"
  proof (cases "better (snd p) (snd b)")
    case True
    have "snd q \<noteq> snd p" if "q \<in> S" for q
      using Cons.prems(2) that True by metis
    with True show ?thesis by auto
  next
    case False
    have "fst b \<le> fst p" using Cons.prems(1,4) by (simp add: less_imp_le)
    with False Cons.prems(3) show ?thesis by simp
  qed
  have 4: "\<forall>q\<in>insert p S. \<forall>p'\<in>set ps. fst q < fst p'"
    using Cons.prems(4,5) by auto
  have 5: "sorted_wrt (<) (map fst ps)" using Cons.prems(5) by simp
  from Cons.IH [OF 1 2 3 4 5 Cons.prems(6)] show ?case by simp
qed


lemma arg_first_spec:
  assumes irrefl: "\<And>x. \<not> better x x"
    and negtrans: "\<And>x y z. \<not> better x y \<Longrightarrow> better z y \<Longrightarrow> \<not> better x z"
    and ne: "ps \<noteq> []" and srt: "sorted_wrt (<) (map fst ps)"
  shows "\<exists>i v. arg_first better ps = Some i \<and> (i, v) \<in> set ps \<and>
           (\<forall>q\<in>set ps. \<not> better (snd q) v \<and> (snd q = v \<longrightarrow> i \<le> fst q))"
proof -
  from ne obtain p qs where ps: "ps = p # qs" by (cases ps) auto
  let ?r = "scan_best better p qs"
  have a: "p \<in> {p}" by simp
  have b: "\<forall>q\<in>{p}. \<not> better (snd q) (snd p)" using irrefl by simp
  have c: "\<forall>q\<in>{p}. snd q = snd p \<longrightarrow> fst p \<le> fst q" by simp
  have d: "\<forall>q\<in>{p}. \<forall>p'\<in>set qs. fst q < fst p'" using srt ps by simp
  have e: "sorted_wrt (<) (map fst qs)" using srt ps by simp
  have f: "\<forall>x y z. \<not> better x y \<longrightarrow> better z y \<longrightarrow> \<not> better x z" using negtrans by blast
  have inv: "?r \<in> {p} \<union> set qs \<and> (\<forall>q\<in>{p} \<union> set qs. \<not> better (snd q) (snd ?r))"
    by (rule scan_best_inv [OF irrefl negtrans a b])
  have fst: "\<forall>q\<in>{p} \<union> set qs. snd q = snd ?r \<longrightarrow> fst ?r \<le> fst q"
    by (rule scan_best_first [OF irrefl a b c d e f])
  have "arg_first better ps = Some (fst ?r)" by (simp add: ps)
  moreover have "(fst ?r, snd ?r) \<in> set ps" using inv ps by simp
  moreover have "\<forall>q\<in>set ps. \<not> better (snd q) (snd ?r) \<and> (snd q = snd ?r \<longrightarrow> fst ?r \<le> fst q)"
    using inv fst ps by simp
  ultimately show ?thesis by blast
qed

lemma idxmin_spec:
  assumes "skipna ps \<noteq> []" "sorted_wrt (<) (map fst ps)"
  shows "\<exists>i v. idxmin ps = Some i \<and> (i, v) \<in> set ps \<and> v \<noteq> NA \<and>
           (\<forall>q\<in>set ps. snd q \<noteq> NA \<longrightarrow> v \<le> snd q \<and> (snd q = v \<longrightarrow> i \<le> fst q))"
proof -
  have srt: "sorted_wrt (<) (map fst (skipna ps))"
    using assms(2) unfolding skipna_def sorted_wrt_map by (rule sorted_wrt_filter)
  have "\<exists>i v. arg_first (\<lambda>w v. w < v) (skipna ps) = Some i \<and> (i, v) \<in> set (skipna ps) \<and>
           (\<forall>q\<in>set (skipna ps). \<not> snd q < v \<and> (snd q = v \<longrightarrow> i \<le> fst q))"
    by (rule arg_first_spec [OF _ _ assms(1) srt]) auto
  then show ?thesis
    unfolding idxmin_def by (fastforce simp: skipna_def not_less)
qed

lemma idxmax_spec:
  assumes "skipna ps \<noteq> []" "sorted_wrt (<) (map fst ps)"
  shows "\<exists>i v. idxmax ps = Some i \<and> (i, v) \<in> set ps \<and> v \<noteq> NA \<and>
           (\<forall>q\<in>set ps. snd q \<noteq> NA \<longrightarrow> snd q \<le> v \<and> (snd q = v \<longrightarrow> i \<le> fst q))"
proof -
  have srt: "sorted_wrt (<) (map fst (skipna ps))"
    using assms(2) unfolding skipna_def sorted_wrt_map by (rule sorted_wrt_filter)
  have "\<exists>i v. arg_first (\<lambda>w v. v < w) (skipna ps) = Some i \<and> (i, v) \<in> set (skipna ps) \<and>
           (\<forall>q\<in>set (skipna ps). \<not> v < snd q \<and> (snd q = v \<longrightarrow> i \<le> fst q))"
    by (rule arg_first_spec [OF _ _ assms(1) srt]) auto
  then show ?thesis
    unfolding idxmax_def by (fastforce simp: skipna_def not_less)
qed


lemma group_column_set:
  "set (group_column cols keys ok rs g) =
     {(i, getitem cols ok (rs ! i)) | i. i < length rs \<and> group_key cols keys (rs ! i) = g}"
  unfolding group_column_def
  by (auto simp: in_set_enumerate_eq image_iff)

lemma group_column_sorted: "sorted_wrt (<) (map fst (group_column cols keys ok rs g))"
proof -
  have "sorted_wrt (<) (map fst (enumerate 0 rs))"
    by (simp add: map_fst_enumerate)
  then have "sorted_wrt (<) (map fst (filter (\<lambda>p. group_key cols keys (snd p) = g) (enumerate 0 rs)))"
    unfolding sorted_wrt_map by (rule sorted_wrt_filter)
  then show ?thesis
    by (simp add: group_column_def comp_def)
qed

lemma those_map_Some:
  "\<forall>x\<in>set xs. f x = Some (g x) \<Longrightarrow> those (map f xs) = Some (map g xs)"
  by (induction xs) simp_all

lemma group_labels_set:
  "set (group_labels key rs) = {k \<in> key ` set rs. NA \<notin> set k}"
  by (auto simp: group_labels_def)

lemma group_labels_distinct: "distinct (group_labels key rs)"
  by (simp add: group_labels_def)

lemma pick_spec:
  assumes g: "g \<in> set (group_labels (group_key cols keys) rs)"
    and some: "\<forall>r\<in>set rs. NA \<notin> set (group_key cols keys r) \<longrightarrow>
                 (\<exists>r'\<in>set rs. group_key cols keys r' = group_key cols keys r \<and> getitem cols ok r' \<noteq> NA)"
  shows "\<exists>i. (if asc then idxmin else idxmax) (group_column cols keys ok rs g) = Some i \<and>
           i < length rs \<and> group_key cols keys (rs ! i) = g \<and> getitem cols ok (rs ! i) \<noteq> NA \<and>
           (\<forall>j<length rs. group_key cols keys (rs ! j) = g \<longrightarrow> getitem cols ok (rs ! j) \<noteq> NA \<longrightarrow>
              (if asc then getitem cols ok (rs ! i) \<le> getitem cols ok (rs ! j)
               else getitem cols ok (rs ! j) \<le> getitem cols ok (rs ! i)) \<and>
              (getitem cols ok (rs ! j) = getitem cols ok (rs ! i) \<longrightarrow> i \<le> j))"
proof -
  let ?ps = "group_column cols keys ok rs g"
  from g obtain r where r: "r \<in> set rs" "group_key cols keys r = g" "NA \<notin> set g"
    by (auto simp: group_labels_set)
  with some obtain r' where r': "r' \<in> set rs" "group_key cols keys r' = g" "getitem cols ok r' \<noteq> NA"
    by blast
  then obtain k where k: "k < length rs" "rs ! k = r'"
    by (auto simp: in_set_conv_nth)
  have "(k, getitem cols ok r') \<in> set ?ps"
    using k r' by (auto simp: group_column_set)
  then have "(k, getitem cols ok r') \<in> set (skipna ?ps)"
    using r' by (simp add: skipna_def)
  then have ne: "skipna ?ps \<noteq> []" by auto
  have mem: "\<And>j. j < length rs \<Longrightarrow> group_key cols keys (rs ! j) = g \<Longrightarrow> (j, getitem cols ok (rs ! j)) \<in> set ?ps"
    by (auto simp: group_column_set)
  show ?thesis
  proof (cases asc)
    case True
    from idxmin_spec [OF ne group_column_sorted]
    obtain i v where iv: "idxmin ?ps = Some i" "(i, v) \<in> set ?ps" "v \<noteq> NA"
      "\<forall>q\<in>set ?ps. snd q \<noteq> NA \<longrightarrow> v \<le> snd q \<and> (snd q = v \<longrightarrow> i \<le> fst q)"
      by blast
    from iv(2) have i: "i < length rs" "group_key cols keys (rs ! i) = g" "v = getitem cols ok (rs ! i)"
      by (auto simp: group_column_set)
    show ?thesis
      using True iv(1,3,4) i mem by fastforce
  next
    case False
    from idxmax_spec [OF ne group_column_sorted]
    obtain i v where iv: "idxmax ?ps = Some i" "(i, v) \<in> set ?ps" "v \<noteq> NA"
      "\<forall>q\<in>set ?ps. snd q \<noteq> NA \<longrightarrow> snd q \<le> v \<and> (snd q = v \<longrightarrow> i \<le> fst q)"
      by blast
    from iv(2) have i: "i < length rs" "group_key cols keys (rs ! i) = g" "v = getitem cols ok (rs ! i)"
      by (auto simp: group_column_set)
    show ?thesis
      using False iv(1,3,4) i mem by fastforce
  qed
qed

lemma remove_duplicate_data_groups:
  assumes keys: "partitioning_keys \<noteq> []" "set partitioning_keys \<subseteq> set (columns df)"
    and ok: "ordering_key \<in> set (columns df)"
    and some: "\<forall>r\<in>set (rows df). NA \<notin> set (group_key (columns df) partitioning_keys r) \<longrightarrow>
                 (\<exists>r'\<in>set (rows df).
                    group_key (columns df) partitioning_keys r' = group_key (columns df) partitioning_keys r \<and>
                    getitem (columns df) ordering_key r' \<noteq> NA)"
  shows "\<exists>out. remove_duplicate_data partitioning_keys ordering_key asc df = Inr out \<and>
           columns out = columns df \<and>
           distinct (map (group_key (columns df) partitioning_keys) (rows out)) \<and>
           set (map (group_key (columns df) partitioning_keys) (rows out)) =
             {k \<in> group_key (columns df) partitioning_keys ` set (rows df). NA \<notin> set k} \<and>
           (\<forall>r\<in>set (rows out). \<exists>i<length (rows df). rows df ! i = r \<and>
              getitem (columns df) ordering_key r \<noteq> NA \<and>
              (\<forall>j<length (rows df).
                 group_key (columns df) partitioning_keys (rows df ! j) = group_key (columns df) partitioning_keys r \<longrightarrow>
                 getitem (columns df) ordering_key (rows df ! j) \<noteq> NA \<longrightarrow>
                 (if asc then getitem (columns df) ordering_key r \<le> getitem (columns df) ordering_key (rows df ! j)
                  else getitem (columns df) ordering_key (rows df ! j) \<le> getitem (columns df) ordering_key r) \<and>
                 (getitem (columns df) ordering_key (rows df ! j) = getitem (columns df) ordering_key r \<longrightarrow> i \<le> j)))"
proof -
  let ?cols = "columns df" and ?rs = "rows df"
  let ?key = "group_key ?cols partitioning_keys"
  let ?val = "getitem ?cols ordering_key"
  let ?labels = "group_labels ?key ?rs"
  define good where
    "good = (\<lambda>g i. i < length ?rs \<and> ?key (?rs ! i) = g \<and> ?val (?rs ! i) \<noteq> NA \<and>
      (\<forall>j<length ?rs. ?key (?rs ! j) = g \<longrightarrow> ?val (?rs ! j) \<noteq> NA \<longrightarrow>
         (if asc then ?val (?rs ! i) \<le> ?val (?rs ! j) else ?val (?rs ! j) \<le> ?val (?rs ! i)) \<and>
         (?val (?rs ! j) = ?val (?rs ! i) \<longrightarrow> i \<le> j)))"
  define idx where
    "idx = (\<lambda>g. (if asc then idxmin else idxmax) (group_column ?cols partitioning_keys ordering_key ?rs g))"
  define pick where "pick = (\<lambda>g. the (idx g))"
  let ?out = "df\<lparr>rows := map (\<lambda>i. ?rs ! i) (map pick ?labels)\<rparr>"
  have pick: "idx g = Some (pick g) \<and> good g (pick g)" if "g \<in> set ?labels" for g
  proof -
    have "\<exists>i. idx g = Some i \<and> good g i"
      unfolding idx_def good_def by (rule pick_spec [OF that some])
    then obtain i where i: "idx g = Some i" "good g i" by (elim exE conjE)
    have "pick g = i" by (simp add: pick_def i)
    with i show ?thesis by simp
  qed
  have "filter (\<lambda>k. k \<notin> set ?cols) partitioning_keys = []"
    using keys(2) by (auto simp: filter_empty_conv)
  moreover have "those (map idx ?labels) = Some (map pick ?labels)"
    by (rule those_map_Some) (simp add: pick)
  ultimately have res: "remove_duplicate_data partitioning_keys ordering_key asc df = Inr ?out"
    using keys(1) ok by (simp add: remove_duplicate_data_def idx_def)
  have "map ?key (map (\<lambda>i. ?rs ! i) (map pick ?labels)) = ?labels"
    using pick by (simp add: map_idI good_def)
  then have keys_out: "map ?key (rows ?out) = ?labels" by simp
  have a: "distinct (map ?key (rows ?out))"
    unfolding keys_out by (rule group_labels_distinct)
  have b: "set (map ?key (rows ?out)) = {k \<in> ?key ` set ?rs. NA \<notin> set k}"
    unfolding keys_out by (rule group_labels_set)
  have c: "\<forall>r\<in>set (rows ?out). \<exists>i<length ?rs. ?rs ! i = r \<and> ?val r \<noteq> NA \<and>
      (\<forall>j<length ?rs. ?key (?rs ! j) = ?key r \<longrightarrow> ?val (?rs ! j) \<noteq> NA \<longrightarrow>
         (if asc then ?val r \<le> ?val (?rs ! j) else ?val (?rs ! j) \<le> ?val r) \<and>
         (?val (?rs ! j) = ?val r \<longrightarrow> i \<le> j))"
  proof
    fix r assume "r \<in> set (rows ?out)"
    then obtain g where g: "g \<in> set ?labels" "r = ?rs ! pick g" by auto
    from pick [OF g(1)] have gd: "good g (pick g)" by simp
    then have k: "?key r = g" by (simp add: good_def g(2))
    show "\<exists>i<length ?rs. ?rs ! i = r \<and> ?val r \<noteq> NA \<and>
      (\<forall>j<length ?rs. ?key (?rs ! j) = ?key r \<longrightarrow> ?val (?rs ! j) \<noteq> NA \<longrightarrow>
         (if asc then ?val r \<le> ?val (?rs ! j) else ?val (?rs ! j) \<le> ?val r) \<and>
         (?val (?rs ! j) = ?val r \<longrightarrow> i \<le> j))"
      unfolding k using gd unfolding good_def g(2) by (intro exI [of _ "pick g"]) simp
  qed
  have d: "columns ?out = columns df" by simp
  show ?thesis
    by (rule exI [of _ ?out]) (intro conjI res a b c d)
qed

section \<open>Properties of the pipeline stages\<close>

lemma work_entry_extend_simps [simp]:
  "work_hour (entry.extend r (work_entry.fields h)) = h"
  "entry.truncate (entry.extend r (work_entry.fields h)) = r"
  "date (entry.extend r (work_entry.fields h)) = date r"
  "entry.branch_id (entry.extend r (work_entry.fields h)) = entry.branch_id r"
  "checkin (entry.extend r (work_entry.fields h)) = checkin r"
  "checkout (entry.extend r (work_entry.fields h)) = checkout r"
  by (simp_all add: entry.defs work_entry.defs)

lemma rated_row_extend_simps [simp]:
  "rated_row.salary_per_hour (joined_row.extend r (rated_row.fields v)) = v"
  "year (joined_row.extend r (rated_row.fields v)) = year r"
  "month (joined_row.extend r (rated_row.fields v)) = month r"
  "branch_id (joined_row.extend r (rated_row.fields v)) = branch_id r"
  "total_work_hour (joined_row.extend r (rated_row.fields v)) = total_work_hour r"
  "joined_row.total_salary (joined_row.extend r (rated_row.fields v)) = joined_row.total_salary r"
  by (simp_all add: joined_row.defs rated_row.defs branch_month.defs hours_row.defs)

lemma work_hour_value:
  "fillna 0 (np_where (timedelta_gt ci co) (Some 0)
      (map_option (\<lambda>d. total_seconds d / 3600) (timedelta_sub co ci))) =
   (case (ci, co) of
      (Some a, Some b) \<Rightarrow> if a > b then 0 else of_int (b - a) / 1000000000 / 3600
    | _ \<Rightarrow> 0)"
  by (simp add: fillna_def np_where_def timedelta_gt_def timedelta_sub_def total_seconds_def
      split: option.splits)

lemma np_round_true_divide:
  "b \<noteq> 0 \<Longrightarrow> np_round (true_divide a b) 2 = Finite (of_int (round_half_even (a / b * 100)) / 100)"
  by (simp add: np_round_def true_divide_def)

lemma calculate_salary_per_hour_isfinite:
  "r \<in> set (calculate_salary_per_hour data) \<Longrightarrow> isfinite (rated_row.salary_per_hour r)"
  by (auto simp: calculate_salary_per_hour_def np_where_def np_round_true_divide isfinite_def)

lemma true_divide_zero: "\<not> isfinite (true_divide a 0)"
  by (simp add: true_divide_def isfinite_def)

lemma select_fields_keys [simp]:
  "map year_month_branch (select_fields data) = map year_month_branch data"
  by (simp add: select_fields_def year_month_branch_def)

lemma calculate_salary_per_hour_keys [simp]:
  "map year_month_branch (calculate_salary_per_hour data) = map year_month_branch data"
  by (simp add: calculate_salary_per_hour_def year_month_branch_def)

lemma merge_keys_list:
  "map year_month_branch (merge left right) =
     concat (map (\<lambda>l. map (\<lambda>r. year_month_branch l)
                        (filter (\<lambda>r. year_month_branch r = year_month_branch l) right)) left)"
proof -
  have "year_month_branch \<lparr>year = year l, month = month l, branch_id = branch_id l,
          total_work_hour = h, total_salary = t\<rparr> = year_month_branch l"
    for l :: hours_row and h t
    by (simp add: year_month_branch_def)
  then show ?thesis
    by (simp add: merge_def map_concat comp_def)
qed

lemma merge_keys:
  "set (map year_month_branch (merge left right)) =
     set (map year_month_branch left) \<inter> set (map year_month_branch right)"
proof (rule set_eqI)
  fix k
  have "k \<in> set (map year_month_branch (merge left right)) \<longleftrightarrow>
      (\<exists>l\<in>set left. \<exists>r\<in>set right. year_month_branch r = year_month_branch l \<and> k = year_month_branch l)"
    unfolding merge_keys_list by auto
  also have "\<dots> \<longleftrightarrow> k \<in> set (map year_month_branch left) \<and> k \<in> set (map year_month_branch right)"
    by (auto simp: image_iff; metis)
  finally show "k \<in> set (map year_month_branch (merge left right)) \<longleftrightarrow>
      k \<in> set (map year_month_branch left) \<inter> set (map year_month_branch right)"
    by simp
qed

lemma groupby_keys: "map fst (groupby key data) = sort (remdups (map key data))"
  by (simp add: groupby_def comp_def)

lemma sort_remdups_cong: "set xs = set ys \<Longrightarrow> sort (remdups xs) = sort (remdups ys)"
  by (metis sorted_list_of_set_sort_remdups)

lemma sum_list_filter_mset:
  fixes f :: "'a \<Rightarrow> 'b::comm_monoid_add"
  shows "mset xs = mset ys \<Longrightarrow> sum_list (map f (filter P xs)) = sum_list (map f (filter P ys))"
  by (metis mset_filter mset_map sum_mset_sum_list)

lemma sum_work_hour_alt:
  "sum_work_hour data =
     map (\<lambda>k. \<lparr>year = fst k, month = fst (snd k), branch_id = snd (snd k),
                total_work_hour = sum_list (map work_hour (filter (\<lambda>r. entry_year_month_branch r = k) data))\<rparr>)
       (sort (remdups (map entry_year_month_branch data)))"
  by (simp add: sum_work_hour_def groupby_def comp_def case_prod_beta)

lemma sum_work_hour_mset:
  assumes "mset xs = mset ys"
  shows "sum_work_hour xs = sum_work_hour ys"
proof -
  have "set xs = set ys" using assms by (rule mset_eq_setD)
  then have k: "sort (remdups (map entry_year_month_branch xs)) = sort (remdups (map entry_year_month_branch ys))"
    by (intro sort_remdups_cong) simp
  have s: "sum_list (map work_hour (filter P xs)) = sum_list (map work_hour (filter P ys))" for P
    using assms by (rule sum_list_filter_mset)
  show ?thesis
    unfolding sum_work_hour_alt k s ..
qed

lemma get_salary_per_employee_alt:
  "get_salary_per_employee data =
     map (\<lambda>k. \<lparr>year = fst k, month = fst (snd k), branch_id = fst (snd (snd k)),
                employee_id = snd (snd (snd k)),
                salary_per_month =
                  Max (set (map salary (filter (\<lambda>r. entry_year_month_branch_employee r = k) data)))\<rparr>)
       (sort (remdups (map entry_year_month_branch_employee data)))"
  by (simp add: get_salary_per_employee_def groupby_def comp_def case_prod_beta)

lemma sum_salary_per_branch_alt:
  "sum_salary_per_branch data =
     map (\<lambda>k. \<lparr>year = fst k, month = fst (snd k), branch_id = snd (snd k),
                salary_row.total_salary =
                  sum_list (map salary_per_month (filter (\<lambda>r. year_month_branch r = k) data))\<rparr>)
       (sort (remdups (map year_month_branch data)))"
  by (simp add: sum_salary_per_branch_def groupby_def comp_def case_prod_beta)

lemma get_salary_per_employee_keys:
  "map (\<lambda>s. (year s, month s, branch_id s, salary_month_row.employee_id s)) (get_salary_per_employee data) =
     sort (remdups (map entry_year_month_branch_employee data))"
  by (simp add: get_salary_per_employee_alt comp_def)

lemma sum_salary_per_branch_keys:
  "map year_month_branch (sum_salary_per_branch data) = sort (remdups (map year_month_branch data))"
  by (simp add: sum_salary_per_branch_alt comp_def year_month_branch_def)

lemma get_salary_per_employee_row:
  assumes "s \<in> set (get_salary_per_employee data)"
  shows "salary_per_month s =
     Max (salary ` {r \<in> set data. entry_year_month_branch_employee r =
                      (year s, month s, branch_id s, salary_month_row.employee_id s)})"
  using assms by (auto simp: get_salary_per_employee_alt)

lemma sum_salary_per_branch_row:
  assumes "t \<in> set (sum_salary_per_branch data)"
  shows "salary_row.total_salary t =
     sum_list (map salary_per_month (filter (\<lambda>s. year_month_branch s = year_month_branch t) data))"
  using assms by (auto simp: sum_salary_per_branch_alt year_month_branch_def)

lemma entry_key_split:
  "entry_year_month_branch_employee r = (y, m, b, e) \<longleftrightarrow>
     entry_year_month_branch r = (y, m, b) \<and> entry.employee_id r = e"
  by (auto simp: entry_year_month_branch_employee_def entry_year_month_branch_def)

lemma get_salary_per_employee_branch_keys:
  "set (map year_month_branch (get_salary_per_employee data)) = set (map entry_year_month_branch data)"
proof -
  have "map year_month_branch (get_salary_per_employee data) =
      map (\<lambda>k. (fst k, fst (snd k), fst (snd (snd k))))
        (sort (remdups (map entry_year_month_branch_employee data)))"
    by (simp add: get_salary_per_employee_alt year_month_branch_def comp_def)
  then have "set (map year_month_branch (get_salary_per_employee data)) =
      set (map (\<lambda>k. (fst k, fst (snd k), fst (snd (snd k))))
        (sort (remdups (map entry_year_month_branch_employee data))))"
    by (rule arg_cong)
  also have "\<dots> = set (map entry_year_month_branch data)"
    by (simp add: image_image entry_year_month_branch_employee_def entry_year_month_branch_def)
  finally show ?thesis .
qed

lemma salary_data_keys:
  "map year_month_branch (salary_data data) = sort (remdups (map entry_year_month_branch data))"
  unfolding salary_data_def sum_salary_per_branch_keys
  by (rule sort_remdups_cong) (rule get_salary_per_employee_branch_keys)

lemma salary_data_row:
  assumes t: "t \<in> set (salary_data data)"
  shows "salary_row.total_salary t =
     (\<Sum>e\<in>entry.employee_id ` {r \<in> set data. entry_year_month_branch r = year_month_branch t}.
        Max (salary ` {r \<in> set data. entry_year_month_branch r = year_month_branch t \<and> entry.employee_id r = e}))"
proof -
  obtain y m b where k: "year_month_branch t = (y, m, b)" by (cases "year_month_branch t") auto
  let ?K4 = "sort (remdups (map entry_year_month_branch_employee data))"
  let ?g = "\<lambda>k4. Max (salary ` {r \<in> set data. entry_year_month_branch_employee r = k4})"
  let ?E = "entry.employee_id ` {r \<in> set data. entry_year_month_branch r = (y, m, b)}"
  have "salary_row.total_salary t =
      sum_list (map salary_per_month
        (filter (\<lambda>s. year_month_branch s = (y, m, b)) (get_salary_per_employee data)))"
    using sum_salary_per_branch_row [OF t [unfolded salary_data_def]] k by simp
  also have "\<dots> = sum_list (map ?g (filter (\<lambda>k4. (fst k4, fst (snd k4), fst (snd (snd k4))) = (y, m, b)) ?K4))"
    by (simp add: get_salary_per_employee_alt filter_map comp_def year_month_branch_def)
  also have "\<dots> = sum ?g (set (filter (\<lambda>k4. (fst k4, fst (snd k4), fst (snd (snd k4))) = (y, m, b)) ?K4))"
    by (rule sum_list_distinct_conv_sum_set) simp
  also have "set (filter (\<lambda>k4. (fst k4, fst (snd k4), fst (snd (snd k4))) = (y, m, b)) ?K4) =
      (\<lambda>e. (y, m, b, e)) ` ?E"
    by (auto simp: image_iff entry_key_split entry_year_month_branch_employee_def entry_year_month_branch_def)
  also have "sum ?g ((\<lambda>e. (y, m, b, e)) ` ?E) = (\<Sum>e\<in>?E. ?g (y, m, b, e))"
    by (subst sum.reindex) (auto simp: inj_on_def)
  finally show ?thesis
    by (simp add: k entry_key_split)
qed

lemma round_half_even_nonneg: "0 \<le> x \<Longrightarrow> 0 \<le> round_half_even x"
  by (simp add: round_half_even_def Let_def)

lemma filter_key_length:
  "distinct (map f xs) \<Longrightarrow> length (filter (\<lambda>x. f x = k) xs) \<le> 1"
  by (induction xs) (auto simp: filter_empty_conv image_iff)

lemma merge_keys_distinct:
  assumes l: "distinct (map year_month_branch left)"
    and r: "distinct (map year_month_branch right)"
  shows "distinct (map year_month_branch (merge left right))"
  using l
proof (induction left)
  case Nil
  then show ?case by (simp add: merge_keys_list)
next
  case (Cons a left)
  let ?inner = "\<lambda>l. map (\<lambda>r. year_month_branch l)
                   (filter (\<lambda>r. year_month_branch r = year_month_branch l) right)"
  have len: "length (filter (\<lambda>r. year_month_branch r = year_month_branch a) right) \<le> 1"
    using r by (rule filter_key_length)
  have "?inner a = replicate (length (filter (\<lambda>r. year_month_branch r = year_month_branch a) right))
      (year_month_branch a)"
    by (simp add: map_replicate_const)
  then have d: "distinct (?inner a)"
    using len by (cases "length (filter (\<lambda>r. year_month_branch r = year_month_branch a) right)") auto
  have tl: "distinct (map year_month_branch (merge left right))"
    using Cons by simp
  have "set (?inner a) \<subseteq> {year_month_branch a}" by auto
  moreover have "year_month_branch a \<notin> set (map year_month_branch (merge left right))"
    using Cons.prems unfolding merge_keys by simp
  ultimately have disj: "set (?inner a) \<inter> set (map year_month_branch (merge left right)) = {}"
    by blast
  have "map year_month_branch (merge (a # left) right) =
      ?inner a @ map year_month_branch (merge left right)"
    by (simp add: merge_keys_list)
  with d tl disj show ?case by simp
qed

lemma sum_work_hour_keys:
  "map year_month_branch (sum_work_hour data) = sort (remdups (map entry_year_month_branch data))"
  by (simp add: sum_work_hour_alt comp_def year_month_branch_def)

lemma salary_per_hour_data_keys_distinct:
  "distinct (map year_month_branch (salary_per_hour_data data))"
proof -
  have "distinct (map year_month_branch (work_hour_data data))"
    unfolding work_hour_data_def sum_work_hour_keys by simp
  moreover have "distinct (map year_month_branch (salary_data data))"
    unfolding salary_data_keys by simp
  ultimately show ?thesis
    unfolding salary_per_hour_data_def joined_work_hour_salary_data_def
    by (simp only: select_fields_keys calculate_salary_per_hour_keys merge_keys_distinct)
qed

lemma calculate_work_hour_nonneg:
  assumes "w \<in> set (calculate_work_hour data)"
  shows "0 \<le> work_hour w"
proof -
  from assms obtain r where
    "w = entry.extend r (work_entry.fields
           (fillna 0
             (np_where (timedelta_gt (checkin r) (checkout r)) (Some 0)
               (map_option (\<lambda>d. total_seconds d / 3600) (timedelta_sub (checkout r) (checkin r))))))"
    unfolding calculate_work_hour_def by auto
  then have "work_hour w = (case (checkin r, checkout r) of
                 (Some a, Some b) \<Rightarrow> if a > b then 0 else of_int (b - a) / 1000000000 / 3600
               | _ \<Rightarrow> 0)"
    by (simp only: work_entry_extend_simps work_hour_value)
  then show ?thesis
    by (auto split: option.splits)
qed

lemma sum_work_hour_nonneg:
  assumes "\<forall>w\<in>set data. 0 \<le> work_hour w" and "h \<in> set (sum_work_hour data)"
  shows "0 \<le> total_work_hour h"
proof -
  from assms(2) obtain k where
    "h = \<lparr>year = fst k, month = fst (snd k), branch_id = snd (snd k),
          total_work_hour = sum_list (map work_hour (filter (\<lambda>r. entry_year_month_branch r = k) data))\<rparr>"
    unfolding sum_work_hour_alt by auto
  then have
    "total_work_hour h = sum_list (map work_hour (filter (\<lambda>r. entry_year_month_branch r = k) data))"
    by simp
  moreover have "0 \<le> sum_list (map work_hour (filter (\<lambda>r. entry_year_month_branch r = k) data))"
    by (rule sum_list_nonneg) (use assms(1) in auto)
  ultimately show ?thesis by simp
qed

lemma salary_data_nonneg:
  assumes nn: "\<forall>e\<in>set data. 0 \<le> salary e" and t: "t \<in> set (salary_data data)"
  shows "0 \<le> salary_row.total_salary t"
  unfolding salary_data_row [OF t]
proof (rule sum_nonneg)
  fix e
  assume "e \<in> entry.employee_id ` {r \<in> set data. entry_year_month_branch r = year_month_branch t}"
  then obtain r where r: "r \<in> set data" "entry_year_month_branch r = year_month_branch t"
    "entry.employee_id r = e" by auto
  let ?S = "salary ` {r \<in> set data. entry_year_month_branch r = year_month_branch t \<and> entry.employee_id r = e}"
  have "salary r \<in> ?S" using r by auto
  moreover have "finite ?S" by simp
  ultimately have "salary r \<le> Max ?S" by (rule Max_ge [rotated])
  with nn r(1) show "0 \<le> Max ?S" by force
qed

lemma merge_row:
  assumes "j \<in> set (merge left right)"
  shows "\<exists>l\<in>set left. \<exists>r\<in>set right. total_work_hour j = total_work_hour l \<and>
           joined_row.total_salary j = salary_row.total_salary r"
  using assms by (auto simp: merge_def)

lemma calculate_salary_per_hour_row:
  assumes "r \<in> set (calculate_salary_per_hour data)"
  shows "\<exists>j\<in>set data. total_work_hour r = total_work_hour j \<and>
           rated_row.salary_per_hour r =
             (if total_work_hour j = 0 then Finite 0
              else Finite (of_int (round_half_even
                     (of_int (joined_row.total_salary j) / total_work_hour j * 100)) / 100))"
  using assms by (auto simp: calculate_salary_per_hour_def np_where_def np_round_true_divide)

lemma joined_row_nonneg:
  assumes "j \<in> set (joined_work_hour_salary_data data)"
  shows "0 \<le> total_work_hour j \<and> ((\<forall>e\<in>set data. 0 \<le> salary e) \<longrightarrow> 0 \<le> joined_row.total_salary j)"
proof -
  from merge_row [OF assms [unfolded joined_work_hour_salary_data_def]]
  obtain l r where l: "l \<in> set (work_hour_data data)" and r: "r \<in> set (salary_data data)"
    and eq: "total_work_hour j = total_work_hour l" "joined_row.total_salary j = salary_row.total_salary r"
    by blast
  have "0 \<le> total_work_hour l"
    using l unfolding work_hour_data_def
    by (rule sum_work_hour_nonneg [rotated]) (simp add: calculate_work_hour_nonneg)
  moreover have "0 \<le> salary_row.total_salary r" if "\<forall>e\<in>set data. 0 \<le> salary e"
    using that r by (rule salary_data_nonneg)
  ultimately show ?thesis by (simp add: eq)
qed

section \<open>The claims\<close>

text \<open>
  Claim C1, as the code has it: an entry passes \<open>filter_valid_data\<close> if and only if it has no
  \<open>resign_date\<close> or its \<open>date\<close> is not after its \<open>resign_date\<close>. The \<open>join_date\<close> is not
  looked at.
\<close>

theorem filter_valid_data_iff:
  "r \<in> set (filter_valid_data data) \<longleftrightarrow>
     r \<in> set data \<and> (resign_date r = None \<or> (\<exists>d. resign_date r = Some d \<and> date_le (date r) d))"
  by (auto simp: filter_valid_data_def datetime_le_def isna_def split: option.splits)

theorem filter_valid_data_iff_witness:
  "example_entry\<lparr>date := Date 2023 12 31\<rparr> \<in> set (filter_valid_data [example_entry\<lparr>date := Date 2023 12 31\<rparr>])
   \<and> example_entry\<lparr>resign_date := Some (Date 2024 5 31)\<rparr>
        \<notin> set (filter_valid_data [example_entry\<lparr>resign_date := Some (Date 2024 5 31)\<rparr>])"
  using filter_valid_data_iff [of "example_entry\<lparr>date := Date 2023 12 31\<rparr>" "[example_entry\<lparr>date := Date 2023 12 31\<rparr>]"]
    filter_valid_data_iff [of "example_entry\<lparr>resign_date := Some (Date 2024 5 31)\<rparr>"
      "[example_entry\<lparr>resign_date := Some (Date 2024 5 31)\<rparr>]"]
  by (simp add: example_entry_def date_le_def)

text \<open>
  An entry dated before the employee joined, with no \<open>resign_date\<close>, passes the filter.
\<close>

theorem filter_valid_data_join_date_counterexample:
  "example_entry\<lparr>date := Date 2023 12 31\<rparr> \<in> set (filter_valid_data [example_entry\<lparr>date := Date 2023 12 31\<rparr>])
   \<and> \<not> date_le (join_date (example_entry\<lparr>date := Date 2023 12 31\<rparr>))
            (date (example_entry\<lparr>date := Date 2023 12 31\<rparr>))"
  by (simp add: filter_valid_data_def datetime_le_def isna_def example_entry_def date_le_def)

text \<open>
  Claim C2: the worked hours of an entry are 0 when \<open>checkin\<close> is after \<open>checkout\<close>, otherwise
  \<open>checkout - checkin\<close> in hours, and 0 when that is undefined because a time is missing.
  From 09:00 to 17:00 they are 8, from 17:00 to 09:00 they are 0, and 0 when both times are
  equal. The other columns of the entry are unchanged.
\<close>

theorem calculate_work_hour_hours:
  "map work_hour (calculate_work_hour data) =
     map (\<lambda>r. case (checkin r, checkout r) of
                 (Some a, Some b) \<Rightarrow> if a > b then 0 else of_int (b - a) / 1000000000 / 3600
               | _ \<Rightarrow> 0) data
   \<and> map entry.truncate (calculate_work_hour data) = data
   \<and> map work_hour (calculate_work_hour [r\<lparr>checkin := Some (clock 9 0), checkout := Some (clock 17 0)\<rparr>]) = [8]
   \<and> map work_hour (calculate_work_hour [r\<lparr>checkin := Some (clock 17 0), checkout := Some (clock 9 0)\<rparr>]) = [0]
   \<and> map work_hour (calculate_work_hour [r\<lparr>checkin := Some t, checkout := Some t\<rparr>]) = [0]"
  by (simp add: calculate_work_hour_def work_hour_value map_idI clock_def)

theorem calculate_work_hour_hours_witness:
  "map work_hour (calculate_work_hour
     [example_entry, example_entry\<lparr>checkout := None\<rparr>, example_entry\<lparr>checkin := Some (clock 17 30)\<rparr>,
      example_entry\<lparr>checkout := Some (clock 17 30)\<rparr>]) = [8, 0, 0, 17 / 2]"
  using calculate_work_hour_hours [of
     "[example_entry, example_entry\<lparr>checkout := None\<rparr>, example_entry\<lparr>checkin := Some (clock 17 30)\<rparr>,
      example_entry\<lparr>checkout := Some (clock 17 30)\<rparr>]"]
  by (simp add: example_entry_def clock_def)



text \<open>
  Claim C4, as the code has it. When the partition keys are columns of the frame, at least
  one is given, the ordering key is a column, and every group has a row whose ordering
  value is present, \<open>remove_duplicate_data\<close> succeeds. Its result has exactly one row for
  each combination of partition-key values of the input in which no value is missing:
  a row of the input with that combination, whose ordering value is the least (ascending)
  or the greatest (descending) of the present ordering values of the group, and the first
  such row of the input. Rows with a missing partition-key value belong to no group and
  are dropped. A frame without rows gives a frame without rows.
\<close>

theorem remove_duplicate_data_one_per_key:
  assumes "partitioning_keys \<noteq> []" and "set partitioning_keys \<subseteq> set (columns df)"
    and "ordering_key \<in> set (columns df)"
    and "\<forall>r\<in>set (rows df). NA \<notin> set (group_key (columns df) partitioning_keys r) \<longrightarrow>
           (\<exists>r'\<in>set (rows df).
              group_key (columns df) partitioning_keys r' = group_key (columns df) partitioning_keys r \<and>
              getitem (columns df) ordering_key r' \<noteq> NA)"
  shows "\<exists>out. remove_duplicate_data partitioning_keys ordering_key asc df = Inr out \<and>
           columns out = columns df \<and>
           distinct (map (group_key (columns df) partitioning_keys) (rows out)) \<and>
           set (map (group_key (columns df) partitioning_keys) (rows out)) =
             {k \<in> group_key (columns df) partitioning_keys ` set (rows df). NA \<notin> set k} \<and>
           (\<forall>r\<in>set (rows out). \<exists>i<length (rows df). rows df ! i = r \<and>
              getitem (columns df) ordering_key r \<noteq> NA \<and>
              (\<forall>j<length (rows df).
                 group_key (columns df) partitioning_keys (rows df ! j) = group_key (columns df) partitioning_keys r \<longrightarrow>
                 getitem (columns df) ordering_key (rows df ! j) \<noteq> NA \<longrightarrow>
                 (if asc then getitem (columns df) ordering_key r \<le> getitem (columns df) ordering_key (rows df ! j)
                  else getitem (columns df) ordering_key (rows df ! j) \<le> getitem (columns df) ordering_key r) \<and>
                 (getitem (columns df) ordering_key (rows df ! j) = getitem (columns df) ordering_key r \<longrightarrow> i \<le> j))) \<and>
           (rows df = [] \<longrightarrow> rows out = [])"
proof -
  from remove_duplicate_data_groups [OF assms, of asc] obtain out where
    out: "remove_duplicate_data partitioning_keys ordering_key asc df = Inr out \<and>
           columns out = columns df \<and>
           distinct (map (group_key (columns df) partitioning_keys) (rows out)) \<and>
           set (map (group_key (columns df) partitioning_keys) (rows out)) =
             {k \<in> group_key (columns df) partitioning_keys ` set (rows df). NA \<notin> set k} \<and>
           (\<forall>r\<in>set (rows out). \<exists>i<length (rows df). rows df ! i = r \<and>
              getitem (columns df) ordering_key r \<noteq> NA \<and>
              (\<forall>j<length (rows df).
                 group_key (columns df) partitioning_keys (rows df ! j) = group_key (columns df) partitioning_keys r \<longrightarrow>
                 getitem (columns df) ordering_key (rows df ! j) \<noteq> NA \<longrightarrow>
                 (if asc then getitem (columns df) ordering_key r \<le> getitem (columns df) ordering_key (rows df ! j)
                  else getitem (columns df) ordering_key (rows df ! j) \<le> getitem (columns df) ordering_key r) \<and>
                 (getitem (columns df) ordering_key (rows df ! j) = getitem (columns df) ordering_key r \<longrightarrow> i \<le> j)))"
    by (elim exE)
  note o1 = out [THEN conjunct1]
    and o2 = out [THEN conjunct2, THEN conjunct1]
    and o3 = out [THEN conjunct2, THEN conjunct2, THEN conjunct1]
    and o4 = out [THEN conjunct2, THEN conjunct2, THEN conjunct2, THEN conjunct1]
    and o5 = out [THEN conjunct2, THEN conjunct2, THEN conjunct2, THEN conjunct2]
  have "rows out = []" if "rows df = []"
  proof -
    have "set (map (group_key (columns df) partitioning_keys) (rows out)) = {}"
      unfolding o4 that by simp
    then show ?thesis by simp
  qed
  then have o6: "rows df = [] \<longrightarrow> rows out = []" ..
  show ?thesis
    by (rule exI [of _ out]) (intro conjI o1 o2 o3 o4 o5 o6)
qed

theorem remove_duplicate_data_one_per_key_witness:
  "(\<exists>out. remove_duplicate_data [''employe_id'', ''branch_id''] ''salary'' True employees_example = Inr out \<and>
           columns out = columns employees_example \<and>
           distinct (map (group_key (columns employees_example) [''employe_id'', ''branch_id'']) (rows out)) \<and>
           set (map (group_key (columns employees_example) [''employe_id'', ''branch_id'']) (rows out)) =
             {k \<in> group_key (columns employees_example) [''employe_id'', ''branch_id''] ` set (rows employees_example). NA \<notin> set k} \<and>
           (\<forall>r\<in>set (rows out). \<exists>i<length (rows employees_example). rows employees_example ! i = r \<and>
              getitem (columns employees_example) ''salary'' r \<noteq> NA \<and>
              (\<forall>j<length (rows employees_example).
                 group_key (columns employees_example) [''employe_id'', ''branch_id''] (rows employees_example ! j) = group_key (columns employees_example) [''employe_id'', ''branch_id''] r \<longrightarrow>
                 getitem (columns employees_example) ''salary'' (rows employees_example ! j) \<noteq> NA \<longrightarrow>
                 (if True then getitem (columns employees_example) ''salary'' r \<le> getitem (columns employees_example) ''salary'' (rows employees_example ! j)
                  else getitem (columns employees_example) ''salary'' (rows employees_example ! j) \<le> getitem (columns employees_example) ''salary'' r) \<and>
                 (getitem (columns employees_example) ''salary'' (rows employees_example ! j) = getitem (columns employees_example) ''salary'' r \<longrightarrow> i \<le> j))) \<and>
           (rows employees_example = [] \<longrightarrow> rows out = []))
   \<and> remove_duplicate_data [''employe_id'', ''branch_id''] ''salary'' True employees_example =
       Inr \<lparr>columns = [''employe_id'', ''branch_id'', ''salary'', ''join_date'', ''resign_date''],
            rows = [[IntC 1, IntC 1, IntC 3000, StrC ''2016-01-15'', NA],
                    [IntC 2, IntC 1, IntC 7500, StrC ''2017-04-28'', NA]]\<rparr>"
proof -
  have h1: "[''employe_id'', ''branch_id''] \<noteq> []" by simp
  have h2: "set [''employe_id'', ''branch_id''] \<subseteq> set (columns employees_example)"
    by (simp add: employees_example_def)
  have h3: "''salary'' \<in> set (columns employees_example)"
    by (simp add: employees_example_def)
  have h4: "\<forall>r\<in>set (rows employees_example).
        NA \<notin> set (group_key (columns employees_example) [''employe_id'', ''branch_id''] r) \<longrightarrow>
        (\<exists>r'\<in>set (rows employees_example).
           group_key (columns employees_example) [''employe_id'', ''branch_id''] r' =
             group_key (columns employees_example) [''employe_id'', ''branch_id''] r \<and>
           getitem (columns employees_example) ''salary'' r' \<noteq> NA)"
    by (simp add: employees_example_def group_key_def getitem_def)
  have ev: "remove_duplicate_data [''employe_id'', ''branch_id''] ''salary'' True employees_example =
       Inr \<lparr>columns = [''employe_id'', ''branch_id'', ''salary'', ''join_date'', ''resign_date''],
            rows = [[IntC 1, IntC 1, IntC 3000, StrC ''2016-01-15'', NA],
                    [IntC 2, IntC 1, IntC 7500, StrC ''2017-04-28'', NA]]\<rparr>"
    by code_simp
  show ?thesis
    by (rule conjI [OF remove_duplicate_data_one_per_key [OF h1 h2 h3 h4] ev])
qed

text \<open>
  A row whose \<open>branch_id\<close> is missing has a combination of partition-key values of its own,
  and the result has no row for it.
\<close>

theorem remove_duplicate_data_missing_key_counterexample:
  "remove_duplicate_data [''employe_id'', ''branch_id''] ''salary'' False
     \<lparr>columns = [''employe_id'', ''branch_id'', ''salary''],
      rows = [[IntC 1, NA, IntC 3000], [IntC 2, IntC 1, IntC 7500]]\<rparr> =
   Inr \<lparr>columns = [''employe_id'', ''branch_id'', ''salary''],
        rows = [[IntC 2, IntC 1, IntC 7500]]\<rparr>"
  by code_simp

text \<open>
  Claim C5, as the code has it. The employee stage addresses the employee identifier as
  \<open>employe_id\<close>. For a file with the columns \<open>employe_id\<close>, \<open>branch_id\<close>, \<open>salary\<close>, \<open>join_date\<close> and
  \<open>resign_date\<close>, in which every group has a row with a salary, the stage succeeds and keeps,
  for each pair of \<open>employe_id\<close> and \<open>branch_id\<close> without a missing value, exactly one row:
  the first row of the file with the highest salary of the pair.
\<close>

theorem employee_data_highest_salary:
  assumes "columns csv = [''employe_id'', ''branch_id'', ''salary'', ''join_date'', ''resign_date'']"
    and "\<forall>r\<in>set (rows csv). NA \<notin> set (group_key (columns csv) [''employe_id'', ''branch_id''] r) \<longrightarrow>
           (\<exists>r'\<in>set (rows csv).
              group_key (columns csv) [''employe_id'', ''branch_id''] r' = group_key (columns csv) [''employe_id'', ''branch_id''] r \<and>
              getitem (columns csv) ''salary'' r' \<noteq> NA)"
  shows "\<exists>out. employee_data csv = Inr out \<and>
           columns out = columns csv \<and>
           distinct (map (group_key (columns csv) [''employe_id'', ''branch_id'']) (rows out)) \<and>
           set (map (group_key (columns csv) [''employe_id'', ''branch_id'']) (rows out)) =
             {k \<in> group_key (columns csv) [''employe_id'', ''branch_id''] ` set (rows csv). NA \<notin> set k} \<and>
           (\<forall>r\<in>set (rows out). \<exists>i<length (rows csv). rows csv ! i = r \<and>
              getitem (columns csv) ''salary'' r \<noteq> NA \<and>
              (\<forall>j<length (rows csv).
                 group_key (columns csv) [''employe_id'', ''branch_id''] (rows csv ! j) = group_key (columns csv) [''employe_id'', ''branch_id''] r \<longrightarrow>
                 getitem (columns csv) ''salary'' (rows csv ! j) \<noteq> NA \<longrightarrow>
                 getitem (columns csv) ''salary'' (rows csv ! j) \<le> getitem (columns csv) ''salary'' r \<and>
                 (getitem (columns csv) ''salary'' (rows csv ! j) = getitem (columns csv) ''salary'' r \<longrightarrow> i \<le> j))) \<and>
           (rows csv = [] \<longrightarrow> rows out = [])"
proof -
  have k: "[''employe_id'', ''branch_id''] \<noteq> []" "set [''employe_id'', ''branch_id''] \<subseteq> set (columns csv)"
    and o: "''salary'' \<in> set (columns csv)"
    by (simp_all add: assms(1))
  from remove_duplicate_data_groups [OF k o assms(2), of False] obtain out where
    out: "remove_duplicate_data [''employe_id'', ''branch_id''] ''salary'' False csv = Inr out \<and>
           columns out = columns csv \<and>
           distinct (map (group_key (columns csv) [''employe_id'', ''branch_id'']) (rows out)) \<and>
           set (map (group_key (columns csv) [''employe_id'', ''branch_id'']) (rows out)) =
             {k \<in> group_key (columns csv) [''employe_id'', ''branch_id''] ` set (rows csv). NA \<notin> set k} \<and>
           (\<forall>r\<in>set (rows out). \<exists>i<length (rows csv). rows csv ! i = r \<and>
              getitem (columns csv) ''salary'' r \<noteq> NA \<and>
              (\<forall>j<length (rows csv).
                 group_key (columns csv) [''employe_id'', ''branch_id''] (rows csv ! j) = group_key (columns csv) [''employe_id'', ''branch_id''] r \<longrightarrow>
                 getitem (columns csv) ''salary'' (rows csv ! j) \<noteq> NA \<longrightarrow>
                 (if False then getitem (columns csv) ''salary'' r \<le> getitem (columns csv) ''salary'' (rows csv ! j)
                  else getitem (columns csv) ''salary'' (rows csv ! j) \<le> getitem (columns csv) ''salary'' r) \<and>
                 (getitem (columns csv) ''salary'' (rows csv ! j) = getitem (columns csv) ''salary'' r \<longrightarrow> i \<le> j)))"
    by (elim exE)
  note o1 = out [THEN conjunct1]
    and o2 = out [THEN conjunct2, THEN conjunct1]
    and o3 = out [THEN conjunct2, THEN conjunct2, THEN conjunct1]
    and o4 = out [THEN conjunct2, THEN conjunct2, THEN conjunct2, THEN conjunct1]
    and o5 = out [THEN conjunct2, THEN conjunct2, THEN conjunct2, THEN conjunct2, unfolded if_False]
  have "rows out = []" if "rows csv = []"
  proof -
    have "set (map (group_key (columns csv) [''employe_id'', ''branch_id'']) (rows out)) = {}"
      unfolding o4 that by simp
    then show ?thesis by simp
  qed
  then have o6: "rows csv = [] \<longrightarrow> rows out = []" ..
  show ?thesis
    unfolding employee_data_def
    by (rule exI [of _ out]) (intro conjI o1 o2 o3 o4 o5 o6)
qed

theorem employee_data_highest_salary_witness:
  "(\<exists>out. employee_data employees_example = Inr out \<and>
           columns out = columns employees_example \<and>
           distinct (map (group_key (columns employees_example) [''employe_id'', ''branch_id'']) (rows out)) \<and>
           set (map (group_key (columns employees_example) [''employe_id'', ''branch_id'']) (rows out)) =
             {k \<in> group_key (columns employees_example) [''employe_id'', ''branch_id''] ` set (rows employees_example). NA \<notin> set k} \<and>
           (\<forall>r\<in>set (rows out). \<exists>i<length (rows employees_example). rows employees_example ! i = r \<and>
              getitem (columns employees_example) ''salary'' r \<noteq> NA \<and>
              (\<forall>j<length (rows employees_example).
                 group_key (columns employees_example) [''employe_id'', ''branch_id''] (rows employees_example ! j) = group_key (columns employees_example) [''employe_id'', ''branch_id''] r \<longrightarrow>
                 getitem (columns employees_example) ''salary'' (rows employees_example ! j) \<noteq> NA \<longrightarrow>
                 getitem (columns employees_example) ''salary'' (rows employees_example ! j) \<le> getitem (columns employees_example) ''salary'' r \<and>
                 (getitem (columns employees_example) ''salary'' (rows employees_example ! j) = getitem (columns employees_example) ''salary'' r \<longrightarrow> i \<le> j))) \<and>
           (rows employees_example = [] \<longrightarrow> rows out = []))
   \<and> employee_data employees_example =
       Inr \<lparr>columns = [''employe_id'', ''branch_id'', ''salary'', ''join_date'', ''resign_date''],
            rows = [[IntC 1, IntC 1, IntC 3500, StrC ''2017-01-15'', NA],
                    [IntC 2, IntC 1, IntC 7500, StrC ''2017-04-28'', NA]]\<rparr>"
proof -
  have h1: "columns employees_example = [''employe_id'', ''branch_id'', ''salary'', ''join_date'', ''resign_date'']"
    by (simp add: employees_example_def)
  have h2: "\<forall>r\<in>set (rows employees_example).
        NA \<notin> set (group_key (columns employees_example) [''employe_id'', ''branch_id''] r) \<longrightarrow>
        (\<exists>r'\<in>set (rows employees_example).
           group_key (columns employees_example) [''employe_id'', ''branch_id''] r' =
             group_key (columns employees_example) [''employe_id'', ''branch_id''] r \<and>
           getitem (columns employees_example) ''salary'' r' \<noteq> NA)"
    by (simp add: employees_example_def group_key_def getitem_def)
  have ev: "employee_data employees_example =
       Inr \<lparr>columns = [''employe_id'', ''branch_id'', ''salary'', ''join_date'', ''resign_date''],
            rows = [[IntC 1, IntC 1, IntC 3500, StrC ''2017-01-15'', NA],
                    [IntC 2, IntC 1, IntC 7500, StrC ''2017-04-28'', NA]]\<rparr>"
    by code_simp
  show ?thesis
    by (rule conjI [OF employee_data_highest_salary [OF h1 h2] ev])
qed

text \<open>
  With the column named \<open>employee_id\<close> the stage raises \<open>KeyError\<close>; and a row with a missing
  \<open>branch_id\<close> is not kept.
\<close>

theorem employee_data_declared_schema_counterexample:
  "employee_data
     \<lparr>columns = [''employee_id'', ''branch_id'', ''salary'', ''join_date'', ''resign_date''],
      rows = [[IntC 1, IntC 1, IntC 3000, StrC ''2016-01-15'', NA]]\<rparr> =
   Inl (KeyError ''employe_id'')
   \<and> employee_data
     \<lparr>columns = [''employe_id'', ''branch_id'', ''salary'', ''join_date'', ''resign_date''],
      rows = [[IntC 1, NA, IntC 3000, StrC ''2016-01-15'', NA],
              [IntC 2, IntC 1, IntC 7500, StrC ''2017-04-28'', NA]]\<rparr> =
   Inr \<lparr>columns = [''employe_id'', ''branch_id'', ''salary'', ''join_date'', ''resign_date''],
        rows = [[IntC 2, IntC 1, IntC 7500, StrC ''2017-04-28'', NA]]\<rparr>"
  by (intro conjI; code_simp)

text \<open>
  Claim C6: the output has a row for a key \<open>(year, month, branch_id)\<close> if and only if the key
  occurs in the hours aggregate and in the salary aggregate.
\<close>

theorem rate_combiner_inner_join:
  "k \<in> set (map year_month_branch
       (select_fields (calculate_salary_per_hour (merge work_hours salaries)))) \<longleftrightarrow>
   k \<in> set (map year_month_branch work_hours) \<and> k \<in> set (map year_month_branch salaries)"
  by (simp only: select_fields_keys calculate_salary_per_hour_keys merge_keys Int_iff)

theorem rate_combiner_inner_join_witness:
  "map year_month_branch (select_fields (calculate_salary_per_hour (merge
      [\<lparr>year = 2024, month = 6, branch_id = 1, total_work_hour = 8\<rparr>,
       \<lparr>year = 2024, month = 6, branch_id = 2, total_work_hour = 4\<rparr>]
      [\<lparr>year = 2024, month = 6, branch_id = 2, salary_row.total_salary = 1000\<rparr>,
       \<lparr>year = 2024, month = 6, branch_id = 3, salary_row.total_salary = 2000\<rparr>]))) = [(2024, 6, 2)]
   \<and> (2024, 6, 1) \<notin> set (map year_month_branch (select_fields (calculate_salary_per_hour (merge
      [\<lparr>year = 2024, month = 6, branch_id = 1, total_work_hour = 8\<rparr>,
       \<lparr>year = 2024, month = 6, branch_id = 2, total_work_hour = 4\<rparr>]
      [\<lparr>year = 2024, month = 6, branch_id = 2, salary_row.total_salary = 1000\<rparr>,
       \<lparr>year = 2024, month = 6, branch_id = 3, salary_row.total_salary = 2000\<rparr>]))))"
  using rate_combiner_inner_join [of "(2024, 6, 1)"
      "[\<lparr>year = 2024, month = 6, branch_id = 1, total_work_hour = 8\<rparr>,
       \<lparr>year = 2024, month = 6, branch_id = 2, total_work_hour = 4\<rparr>]"
      "[\<lparr>year = 2024, month = 6, branch_id = 2, salary_row.total_salary = 1000\<rparr>,
       \<lparr>year = 2024, month = 6, branch_id = 3, salary_row.total_salary = 2000\<rparr>]"]
  by (simp add: merge_def year_month_branch_def)








text \<open>
  Claim C10: the quotient is selected only for a non-zero \<open>total_work_hour\<close>, the quotient of
  two numbers is finite exactly when the divisor is not zero, and every \<open>salary_per_hour\<close>
  that is computed is a finite number.
\<close>

theorem salary_per_hour_finite:
  "map rated_row.salary_per_hour (calculate_salary_per_hour data) =
     map (\<lambda>r. if total_work_hour r = 0 then Finite 0
               else np_round (true_divide (of_int (joined_row.total_salary r)) (total_work_hour r)) 2) data
   \<and> (\<forall>r\<in>set (calculate_salary_per_hour data). isfinite (rated_row.salary_per_hour r))
   \<and> (isfinite (true_divide a b) \<longleftrightarrow> b \<noteq> 0)
   \<and> (\<forall>r\<in>set (salary_per_hour_data entries). isfinite (result_row.salary_per_hour r))"
proof (intro conjI ballI)
  show "map rated_row.salary_per_hour (calculate_salary_per_hour data) =
     map (\<lambda>r. if total_work_hour r = 0 then Finite 0
               else np_round (true_divide (of_int (joined_row.total_salary r)) (total_work_hour r)) 2) data"
    by (simp add: calculate_salary_per_hour_def np_where_def)
  show "isfinite (true_divide a b) \<longleftrightarrow> b \<noteq> 0"
    by (simp add: true_divide_def isfinite_def)
next
  fix r assume "r \<in> set (calculate_salary_per_hour data)"
  then show "isfinite (rated_row.salary_per_hour r)"
    by (rule calculate_salary_per_hour_isfinite)
next
  fix r assume "r \<in> set (salary_per_hour_data entries)"
  then obtain r' where "r' \<in> set (calculate_salary_per_hour (joined_work_hour_salary_data entries))"
    "result_row.salary_per_hour r = rated_row.salary_per_hour r'"
    by (auto simp: salary_per_hour_data_def select_fields_def)
  then show "isfinite (result_row.salary_per_hour r)"
    by (simp add: calculate_salary_per_hour_isfinite)
qed

theorem salary_per_hour_finite_witness:
  "map rated_row.salary_per_hour (calculate_salary_per_hour
     [\<lparr>year = 2024, month = 6, branch_id = 1, total_work_hour = 0, total_salary = 3000\<rparr>]) = [Finite 0]
   \<and> isfinite (Finite 0)
   \<and> \<not> isfinite (true_divide 3000 0)"
  using salary_per_hour_finite [of
     "[\<lparr>year = 2024, month = 6, branch_id = 1, total_work_hour = 0, total_salary = 3000\<rparr>]" 3000 0 "[]"]
  by (simp add: isfinite_def)

end
